theory Spec2Isabelle
  imports Main "HOL-Library.Word"
begin

section \<open>Key builder\<close>

text \<open>
  \<^verbatim>\<open>strings.Join(elems, sep)\<close> of the Go standard library: the empty string for no
  element, the element itself for one, and otherwise the elements with \<open>sep\<close> between
  each two neighbours.
\<close>

fun Join :: "string list \<Rightarrow> string \<Rightarrow> string" where
  "Join [] sep = []"
| "Join [x] sep = x"
| "Join (x # y # ys) sep = x @ sep @ Join (y # ys) sep"

text \<open>
  \<^verbatim>\<open>func BuildMappingKey(keys []string) string { return strings.Join(keys, "|") }\<close>
\<close>

definition BuildMappingKey :: "string list \<Rightarrow> string" where
  "BuildMappingKey keys = Join keys ''|''"

definition pipe_free :: "string \<Rightarrow> bool" where
  "pipe_free s = (CHR ''|'' \<notin> set s)"

section \<open>Errors, panics and Go maps\<close>

text \<open>
  Go reports failure in two ways, and both are values of the model: an \<open>error\<close> that a
  function returns beside its result, and a run-time panic that ends the goroutine
  (here only indexing a slice out of range).
\<close>

datatype error =
    ErrorsNew string
  | PathError string
  | CsvError string
  | RequestError string
  | TransportError string

datatype panic = IndexOutOfRange nat nat

definition index :: "'a list \<Rightarrow> nat \<Rightarrow> panic + 'a" where
  "index xs i = (if i < length xs then Inr (xs ! i) else Inl (IndexOutOfRange i (length xs)))"

text \<open>
  A value of type \<^verbatim>\<open>map[string][]string\<close> is \<open>None\<close> for the nil map and \<open>Some m\<close>
  otherwise. Reading a key that is absent (or reading the nil map) gives the nil slice.
\<close>

type_synonym gomap = "(string \<rightharpoonup> string list) option"

definition get :: "(string \<rightharpoonup> string list) \<Rightarrow> string \<Rightarrow> string list" where
  "get m key = (case m key of None \<Rightarrow> [] | Some jobs \<Rightarrow> jobs)"

definition lookup :: "gomap \<Rightarrow> string \<Rightarrow> string list" where
  "lookup mp key = (case mp of None \<Rightarrow> [] | Some m \<Rightarrow> get m key)"

section \<open>Mapping table\<close>

text \<open>
  \<^verbatim>\<open>type triggerMapping struct { mapping map[string][]string }\<close>
\<close>

record triggerMapping =
  mapping :: gomap

text \<open>
  The reader of \<^verbatim>\<open>encoding/csv\<close> (with \<^verbatim>\<open>Comma = ';'\<close>) belongs to the Go library.
  The model takes what it delivers: a mapping source is the list of the outcomes of the
  successive calls of \<^verbatim>\<open>reader.Read()\<close>, each a record (the fields of one row) together
  with an optional error, and \<^verbatim>\<open>io.EOF\<close> once the list is exhausted. The library returns
  the record beside the error when only the field count differs from the first row's.
\<close>

type_synonym read_result = "string list \<times> error option"

text \<open>
  Lines 269--277 of \<^verbatim>\<open>ParseMappingFile\<close>: the key of one record.
  \<^verbatim>\<open>
  if filematch {
      if len(record) != 4 {
          return triggerMapping{mapping: nil}, errors.New("no file matching ...")
      }
      key = BuildMappingKey([]string{record[0], record[1], record[3]})
  } else {
      key = BuildMappingKey([]string{record[0], record[1]})
  }
  \<close>
  The result is a panic, the error of the early return, or the key.
\<close>

definition record_key :: "bool \<Rightarrow> string list \<Rightarrow> panic + (error + string)" where
  "record_key filematch record =
     (if filematch then
        (if length record \<noteq> 4 then
           Inr (Inl (ErrorsNew ''no file matching information provided in mapping file''))
         else
           (case index record 0 of Inl p \<Rightarrow> Inl p | Inr r0 \<Rightarrow>
            (case index record 1 of Inl p \<Rightarrow> Inl p | Inr r1 \<Rightarrow>
             (case index record 3 of Inl p \<Rightarrow> Inl p | Inr r3 \<Rightarrow>
                Inr (Inr (BuildMappingKey [r0, r1, r3]))))))
      else
        (case index record 0 of Inl p \<Rightarrow> Inl p | Inr r0 \<Rightarrow>
         (case index record 1 of Inl p \<Rightarrow> Inl p | Inr r1 \<Rightarrow>
            Inr (Inr (BuildMappingKey [r0, r1])))))"

text \<open>
  The \<^verbatim>\<open>for\<close> loop of \<^verbatim>\<open>ParseMappingFile\<close>, with the map \<open>m\<close> and \<open>lineCount\<close> as its
  state. The empty list is \<^verbatim>\<open>io.EOF\<close> (\<^verbatim>\<open>break\<close>); any other error returns at once with
  the nil mapping; otherwise \<^verbatim>\<open>m[key] = append(m[key], record[2])\<close>.
\<close>

fun ParseMappingFile_loop ::
  "bool \<Rightarrow> read_result list \<Rightarrow> (string \<rightharpoonup> string list) \<Rightarrow> nat
    \<Rightarrow> panic + (triggerMapping \<times> error option)" where
  "ParseMappingFile_loop filematch [] m lineCount = Inr (\<lparr>mapping = Some m\<rparr>, None)"
| "ParseMappingFile_loop filematch ((record, Some err) # rest) m lineCount =
     Inr (\<lparr>mapping = None\<rparr>, Some err)"
| "ParseMappingFile_loop filematch ((record, None) # rest) m lineCount =
     (case record_key filematch record of
        Inl p \<Rightarrow> Inl p
      | Inr (Inl e) \<Rightarrow> Inr (\<lparr>mapping = None\<rparr>, Some e)
      | Inr (Inr key) \<Rightarrow>
          (case index record 2 of
             Inl p \<Rightarrow> Inl p
           | Inr job \<Rightarrow>
               ParseMappingFile_loop filematch rest (m(key \<mapsto> get m key @ [job]))
                 (lineCount + 1)))"

definition ParseMappingFile ::
  "read_result list \<Rightarrow> bool \<Rightarrow> panic + (triggerMapping \<times> error option)" where
  "ParseMappingFile file filematch = ParseMappingFile_loop filematch file Map.empty 0"

text \<open>
  What the request handler does with a loaded table: \<^verbatim>\<open>mapping[key]\<close> for
  \<^verbatim>\<open>key := BuildMappingKey([]string{repo, branch})\<close>. The result is \<open>None\<close> when the load
  did not return a table (an error or a panic).
\<close>

definition load_then_lookup :: "read_result list \<Rightarrow> bool \<Rightarrow> string list \<Rightarrow> string list option" where
  "load_then_lookup file filematch parts =
     (case ParseMappingFile file filematch of
        Inr (tm, None) \<Rightarrow> Some (lookup (mapping tm) (BuildMappingKey parts))
      | _ \<Rightarrow> None)"

text \<open>
  The list the specification expects from a lookup in non-file-matching mode: the third
  fields of the rows whose first two fields are the repository and the branch, in the
  order of the source.
\<close>

definition jobs_of_pair :: "read_result list \<Rightarrow> string \<Rightarrow> string \<Rightarrow> string list" where
  "jobs_of_pair file repo branch =
     map (\<lambda>r. r ! 2) (filter (\<lambda>r. r ! 0 = repo \<and> r ! 1 = branch) (map fst file))"

text \<open>The same list with the rows selected by their key instead.\<close>

definition jobs_of_key :: "read_result list \<Rightarrow> string \<Rightarrow> string list" where
  "jobs_of_key file key =
     map (\<lambda>r. r ! 2) (filter (\<lambda>r. BuildMappingKey [r ! 0, r ! 1] = key) (map fst file))"

section \<open>Package-level state\<close>

text \<open>
  The package-level variables of \<^verbatim>\<open>app.go\<close> other than \<^verbatim>\<open>timeKeeper\<close> (which lives in
  the timer registry below). The variable \<^verbatim>\<open>mapping\<close> is the field \<open>mapping_var\<close>, since
  \<open>mapping\<close> is already the field of \<open>triggerMapping\<close>.
\<close>

record globals =
  JenkinsURL :: string
  JenkinsUser :: string
  JenkinsToken :: string
  JenkinsMulti :: string
  MappingFile :: string
  QuietPeriod :: int
  FileMatching :: bool
  mapping_var :: gomap

text \<open>
  The values at program start: the zero value of each \<^verbatim>\<open>var\<close>, and
  \<^verbatim>\<open>mapping = make(map[string][]string)\<close>.
\<close>

definition initial_globals :: globals where
  "initial_globals =
     \<lparr>JenkinsURL = [], JenkinsUser = [], JenkinsToken = [], JenkinsMulti = [],
      MappingFile = [], QuietPeriod = 0, FileMatching = False,
      mapping_var = Some Map.empty\<rparr>"

section \<open>Trigger dispatcher\<close>

text \<open>
  What the model keeps of an \<^verbatim>\<open>*http.Request\<close> and of an \<^verbatim>\<open>*http.Response\<close>.
\<close>

record request =
  Method :: string
  URL :: string
  BasicAuth :: "(string \<times> string) option"

record response =
  StatusCode :: int

text \<open>
  \<^verbatim>\<open>http.NewRequest(method, url, nil)\<close> parses the URL once, when the request is made;
  it fails when the URL does not parse. Which strings parse is the library's matter and
  a parameter here. \<^verbatim>\<open>req.SetBasicAuth\<close> sets the authorization header.
\<close>

definition NewRequest :: "(string \<Rightarrow> bool) \<Rightarrow> string \<Rightarrow> string \<Rightarrow> error + request" where
  "NewRequest parses method url =
     (if parses url then Inr \<lparr>Method = method, URL = url, BasicAuth = None\<rparr>
      else Inl (RequestError url))"

definition SetBasicAuth :: "request \<Rightarrow> string \<Rightarrow> string \<Rightarrow> request" where
  "SetBasicAuth req username password = req\<lparr>BasicAuth := Some (username, password)\<rparr>"

text \<open>
  \<^verbatim>\<open>func createJobURL(jenkinsURL, job string) string {
      return string(jenkinsURL + "/job/" + job + "/build") }\<close>
\<close>

definition createJobURL :: "string \<Rightarrow> string \<Rightarrow> string" where
  "createJobURL jenkinsURL job = jenkinsURL @ ''/job/'' @ job @ ''/build''"

datatype log_event =
    LogError error
  | LogFailed string int
  | LogTriggered string

text \<open>
  The observable outcome of one call of \<^verbatim>\<open>triggerJob\<close>: the boolean it returns, the
  requests it handed to \<^verbatim>\<open>client.Do\<close>, the last value of its local variable \<^verbatim>\<open>url\<close>, and
  what it logged.
\<close>

record dispatch =
  success :: bool
  sent :: "request list"
  url_var :: string
  logged :: "log_event list"

text \<open>
  \<^verbatim>\<open>triggerJob\<close>. The client (five seconds of timeout, no certificate check) and the
  network behind it are the parameter \<open>Do\<close>: a transport error or a response.
  \<^verbatim>\<open>
  url := createJobURL(JenkinsURL, job)
  req, err := http.NewRequest("POST", url, nil)
  if err != nil { return false }
  if JenkinsUser != "" { req.SetBasicAuth(JenkinsUser, JenkinsToken)
  } else { url = string(url + "?token=" + JenkinsToken) }
  ...
  resp, err := client.Do(req)
  if err != nil { log.Print("Error:", err); return false }
  if !(200 <= resp.StatusCode && resp.StatusCode <= 299) { log.Printf("... failed ...")
  } else { log.Printf("... triggered") }
  return true
  \<close>
\<close>

definition triggerJob ::
  "globals \<Rightarrow> (string \<Rightarrow> bool) \<Rightarrow> (request \<Rightarrow> error + response) \<Rightarrow> string \<Rightarrow> dispatch" where
  "triggerJob g parses Do job =
     (let url = createJobURL (JenkinsURL g) job in
      case NewRequest parses ''POST'' url of
        Inl err \<Rightarrow> \<lparr>success = False, sent = [], url_var = url, logged = []\<rparr>
      | Inr req0 \<Rightarrow>
          (let (req, url) =
                 (if JenkinsUser g \<noteq> []
                  then (SetBasicAuth req0 (JenkinsUser g) (JenkinsToken g), url)
                  else (req0, url @ ''?token='' @ JenkinsToken g))
           in case Do req of
                Inl err \<Rightarrow>
                  \<lparr>success = False, sent = [req], url_var = url, logged = [LogError err]\<rparr>
              | Inr resp \<Rightarrow>
                  \<lparr>success = True, sent = [req], url_var = url,
                   logged =
                     [if \<not> (200 \<le> StatusCode resp \<and> StatusCode resp \<le> 299)
                      then LogFailed job (StatusCode resp) else LogTriggered job]\<rparr>))"

text \<open>Two environments for concrete runs: every URL parses, and a server that answers
  every request with one status code.\<close>

definition any_url :: "string \<Rightarrow> bool" where
  "any_url url = True"

definition answers :: "int \<Rightarrow> request \<Rightarrow> error + response" where
  "answers code req = Inr \<lparr>StatusCode = code\<rparr>"

section \<open>Startup\<close>

text \<open>
  \<^verbatim>\<open>parseFlags\<close> registers seven flags and calls \<^verbatim>\<open>flag.Parse()\<close>. The parsing of the
  command line belongs to the library; the model takes its result, the value given for
  each flag if any, and stores it or the flag's default in the variable.
\<close>

record flag_values =
  flag_jenkins_url :: "string option"
  flag_jenkins_user :: "string option"
  flag_jenkins_token :: "string option"
  flag_jenkins_multi :: "string option"
  flag_mappingfile :: "string option"
  flag_quietperiod :: "int option"
  flag_filematch :: "bool option"

definition flag_or :: "'a \<Rightarrow> 'a option \<Rightarrow> 'a" where
  "flag_or dflt v = (case v of None \<Rightarrow> dflt | Some x \<Rightarrow> x)"

definition parseFlags :: "flag_values \<Rightarrow> globals \<Rightarrow> globals" where
  "parseFlags fl g =
     g\<lparr>JenkinsURL := flag_or [] (flag_jenkins_url fl),
       JenkinsUser := flag_or [] (flag_jenkins_user fl),
       JenkinsToken := flag_or [] (flag_jenkins_token fl),
       JenkinsMulti := flag_or [] (flag_jenkins_multi fl),
       MappingFile := flag_or ''mapping.csv'' (flag_mappingfile fl),
       QuietPeriod := flag_or 10 (flag_quietperiod fl),
       FileMatching := flag_or False (flag_filematch fl)\<rparr>"

text \<open>
  The file system as the program meets it: \<^verbatim>\<open>os.Open(path)\<close> fails with an error, or
  gives a file, which is read only through the csv reader (see \<open>read_result\<close>).
\<close>

type_synonym filesystem = "string \<Rightarrow> error + read_result list"

text \<open>
  \<^verbatim>\<open>ProcessMappingFile\<close>. The variable \<open>err\<close> is the error of \<^verbatim>\<open>os.Open\<close>, which is nil
  once the file is open; the parser's error is \<open>perr\<close>.
  \<^verbatim>\<open>
  file, err := os.Open(mappingfile)
  if err != nil { return err }
  defer file.Close()
  tm, perr := ParseMappingFile(file, FileMatching)
  if perr != nil { return err }
  mapping = tm.mapping
  return nil
  \<close>
\<close>

definition ProcessMappingFile ::
  "globals \<Rightarrow> filesystem \<Rightarrow> string \<Rightarrow> panic + (globals \<times> error option)" where
  "ProcessMappingFile g fs mappingfile =
     (case fs mappingfile of
        Inl operr \<Rightarrow> Inr (g, Some operr)
      | Inr file \<Rightarrow>
          (let err = None in
           case ParseMappingFile file (FileMatching g) of
             Inl p \<Rightarrow> Inl p
           | Inr (tm, perr) \<Rightarrow>
               if perr \<noteq> None then Inr (g, err)
               else Inr (g\<lparr>mapping_var := mapping tm\<rparr>, None)))"

text \<open>
  The effects of \<^verbatim>\<open>run\<close> on the outside, in order: the call of
  \<^verbatim>\<open>ProcessMappingFile\<close> with its path, \<^verbatim>\<open>http.HandleFunc\<close> with its pattern and
  \<^verbatim>\<open>http.ListenAndServe\<close> with its address.
\<close>

datatype effect =
    LoadMapping string
  | HandleFunc string
  | ListenAndServe string

text \<open>
  \<^verbatim>\<open>run(args, stdout)\<close>: the effects so far, and a panic or the variables with the
  error returned. The arguments are not read. \<^verbatim>\<open>ListenAndServe\<close> blocks while it
  serves; when it returns, \<^verbatim>\<open>run\<close> drops its error and returns nil.
\<close>

definition run ::
  "globals \<Rightarrow> string list \<Rightarrow> filesystem
    \<Rightarrow> effect list \<times> (panic + (globals \<times> error option))" where
  "run g args fs =
     (if JenkinsURL g = [] then ([], Inr (g, Some (ErrorsNew ''No JENKINS_URL defined'')))
      else if JenkinsToken g = [] then
        ([], Inr (g, Some (ErrorsNew ''No JENKINS_TOKEN defined'')))
      else
        (let g1 = (if JenkinsMulti g \<noteq> []
                   then g\<lparr>JenkinsURL := JenkinsURL g @ ''/job/'' @ JenkinsMulti g\<rparr>
                   else g)
         in case ProcessMappingFile g1 fs (MappingFile g1) of
              Inl p \<Rightarrow> ([LoadMapping (MappingFile g1)], Inl p)
            | Inr (g2, Some err) \<Rightarrow> ([LoadMapping (MappingFile g1)], Inr (g2, Some err))
            | Inr (g2, None) \<Rightarrow>
                ([LoadMapping (MappingFile g1), HandleFunc ''/'', ListenAndServe '':8080''],
                 Inr (g2, None))))"

text \<open>
  \<^verbatim>\<open>main\<close>: it calls \<^verbatim>\<open>run(os.Args, os.Stdout)\<close> on the variables as they are at
  program start, and nothing else before it. A returned error goes to \<^verbatim>\<open>log.Fatalf\<close>,
  which prints it and exits with status 1; a panic ends the process with status 2; and
  \<^verbatim>\<open>main\<close> returning ends it with status 0. The environment is a parameter that no
  code reads.
\<close>

record process_end =
  exit_code :: nat
  fatal :: "error option"
  effects :: "effect list"

definition main :: "string list \<Rightarrow> (string \<rightharpoonup> string) \<Rightarrow> filesystem \<Rightarrow> process_end" where
  "main args env fs =
     (case run initial_globals args fs of
        (effs, Inl p) \<Rightarrow> \<lparr>exit_code = 2, fatal = None, effects = effs\<rparr>
      | (effs, Inr (g, Some err)) \<Rightarrow> \<lparr>exit_code = 1, fatal = Some err, effects = effs\<rparr>
      | (effs, Inr (g, None)) \<Rightarrow> \<lparr>exit_code = 0, fatal = None, effects = effs\<rparr>)"

text \<open>A file system for concrete runs: every path opens, with the same content.\<close>

definition every_path :: "read_result list \<Rightarrow> filesystem" where
  "every_path content path = Inr content"

section \<open>Debounce timer registry\<close>

text \<open>
  A \<^verbatim>\<open>*time.Timer\<close> made by \<^verbatim>\<open>time.AfterFunc\<close> is an index into the list of all timers
  made so far. Each timer carries the job its function closes over, the instant at which
  it matures (nanoseconds of the monotonic clock) and its status: \<open>Pending\<close> until it
  matures or is stopped, \<open>Running\<close> while its function runs, \<open>Done\<close> after the function
  has returned. \<^verbatim>\<open>timeKeeper\<close> is the map from job names to timers, and \<open>fired\<close> records
  every start of a timer function, that is every call \<^verbatim>\<open>triggerJob(job)\<close>, with its
  instant.
\<close>

datatype timer_status = Pending | Stopped | Running | Done

record timer =
  timer_job :: string
  timer_due :: int
  timer_status :: timer_status

record registry =
  clock :: int
  timers :: "timer list"
  timeKeeper :: "string \<rightharpoonup> nat"
  fired :: "(string \<times> int) list"

definition init_registry :: "int \<Rightarrow> registry" where
  "init_registry now = \<lparr>clock = now, timers = [], timeKeeper = Map.empty, fired = []\<rparr>"

text \<open>
  \<^verbatim>\<open>time.Second*time.Duration(QuietPeriod)\<close>: a product of 64-bit signed integers, in
  nanoseconds, which wraps around.
\<close>

definition quietDuration :: "int \<Rightarrow> int" where
  "quietDuration qp = sint ((1000000000 :: 64 word) * word_of_int qp)"

text \<open>
  \<^verbatim>\<open>time.AfterFunc(d, f)\<close> makes a timer that matures \<open>d\<close> from now, at once when \<open>d\<close> is
  not positive. \<^verbatim>\<open>t.Stop()\<close> keeps a timer from maturing; it has no effect on a timer
  that has matured or was stopped before.
\<close>

definition AfterFunc :: "int \<Rightarrow> string \<Rightarrow> registry \<Rightarrow> nat \<times> registry" where
  "AfterFunc d job s =
     (length (timers s),
      s\<lparr>timers := timers s @
           [\<lparr>timer_job = job, timer_due = clock s + max 0 d, timer_status = Pending\<rparr>]\<rparr>)"

definition Stop :: "nat \<Rightarrow> registry \<Rightarrow> registry" where
  "Stop t s =
     (if t < length (timers s) \<and> timer_status (timers s ! t) = Pending
      then s\<lparr>timers := (timers s)[t := (timers s ! t)\<lparr>timer_status := Stopped\<rparr>]\<rparr>
      else s)"

text \<open>
  \<^verbatim>\<open>createTimer(job)\<close>, with the value of \<^verbatim>\<open>QuietPeriod\<close> as \<open>qp\<close>.
  \<^verbatim>\<open>
  if _, ok := timeKeeper[job]; ok {
      timeKeeper[job].Stop()
      delete(timeKeeper, job)
  }
  timer := time.AfterFunc(time.Second*time.Duration(QuietPeriod), func() { ... })
  timeKeeper[job] = timer
  \<close>
\<close>

definition createTimer :: "int \<Rightarrow> string \<Rightarrow> registry \<Rightarrow> registry" where
  "createTimer qp job s =
     (let s1 = (case timeKeeper s job of
                  None \<Rightarrow> s
                | Some t \<Rightarrow> (Stop t s)\<lparr>timeKeeper := (timeKeeper s)(job := None)\<rparr>);
          (timer, s2) = AfterFunc (quietDuration qp) job s1
      in s2\<lparr>timeKeeper := (timeKeeper s2)(job \<mapsto> timer)\<rparr>)"

text \<open>
  The function given to \<^verbatim>\<open>AfterFunc\<close> runs in a goroutine of its own:
  \<^verbatim>\<open>
  func() {
      triggerJob(job)
      if _, ok := timeKeeper[job]; ok {
          delete(timeKeeper, job)
      }
  }
  \<close>
  Its call of \<^verbatim>\<open>triggerJob\<close> waits for the build server, up to five seconds, and other
  goroutines run meanwhile. So the function is two steps of the model: its start,
  when the timer matures (\<open>advance\<close>), and what it does after \<^verbatim>\<open>triggerJob\<close> has
  returned (\<open>callback_return\<close>).
\<close>

definition maturing :: "int \<Rightarrow> timer \<Rightarrow> bool" where
  "maturing now t = (timer_status t = Pending \<and> timer_due t \<le> now)"

definition start :: "int \<Rightarrow> timer \<Rightarrow> timer" where
  "start now t = (if maturing now t then t\<lparr>timer_status := Running\<rparr> else t)"

text \<open>
  Time passes by \<open>d\<close> nanoseconds: every pending timer that is due by then matures and
  its function starts, at the instant the timer was due, earliest first.
\<close>

definition advance :: "nat \<Rightarrow> registry \<Rightarrow> registry" where
  "advance d s =
     (let now = clock s + int d in
      s\<lparr>clock := now,
        timers := map (start now) (timers s),
        fired := fired s @
          map (\<lambda>t. (timer_job t, timer_due t))
            (sort_key timer_due (filter (maturing now) (timers s)))\<rparr>)"

definition callback_return :: "nat \<Rightarrow> registry \<Rightarrow> registry" where
  "callback_return t s =
     (if t < length (timers s) \<and> timer_status (timers s ! t) = Running then
        (let job = timer_job (timers s ! t);
             s1 = s\<lparr>timers := (timers s)[t := (timers s ! t)\<lparr>timer_status := Done\<rparr>]\<rparr>
         in case timeKeeper s1 job of
              None \<Rightarrow> s1
            | Some t' \<Rightarrow> s1\<lparr>timeKeeper := (timeKeeper s1)(job := None)\<rparr>)
      else s)"

text \<open>
  What can happen to the registry: a request handler arms a job, time passes, or the
  function of a timer returns from \<^verbatim>\<open>triggerJob\<close>. A run is a list of such events.
\<close>

datatype event = Arm string | Advance nat | Return nat

fun step :: "int \<Rightarrow> registry \<Rightarrow> event \<Rightarrow> registry" where
  "step qp s (Arm job) = createTimer qp job s"
| "step qp s (Advance d) = advance d s"
| "step qp s (Return t) = callback_return t s"

definition run_events :: "int \<Rightarrow> event list \<Rightarrow> registry \<Rightarrow> registry" where
  "run_events qp evs s = foldl (step qp) s evs"


definition fires :: "string \<Rightarrow> registry \<Rightarrow> int list" where
  "fires job s = map snd (filter (\<lambda>(j, at). j = job) (fired s))"

text \<open>
  The request handler: \<^verbatim>\<open>ParseGetRequest\<close> reads the first \<^verbatim>\<open>repo\<close> and \<^verbatim>\<open>branch\<close>
  parameters of the query (the branch is \<open>master\<close> when absent; the file list stays
  empty), and \<^verbatim>\<open>handler\<close> arms every job that the table has for their key.
\<close>

definition ParseGetRequest ::
  "(string \<rightharpoonup> string list) \<Rightarrow> string \<times> string \<times> string list \<times> error option" where
  "ParseGetRequest query =
     (case query ''repo'' of
        None \<Rightarrow> ([], [], [], Some (ErrorsNew ''repo is missing''))
      | Some [] \<Rightarrow> ([], [], [], Some (ErrorsNew ''repo is missing''))
      | Some (repo # _) \<Rightarrow>
          (let branch = (case query ''branch'' of
                           None \<Rightarrow> ''master''
                         | Some [] \<Rightarrow> ''master''
                         | Some (b # _) \<Rightarrow> b)
           in (repo, branch, [], None)))"

definition handler :: "globals \<Rightarrow> (string \<rightharpoonup> string list) \<Rightarrow> registry \<Rightarrow> registry" where
  "handler g query s =
     (case ParseGetRequest query of
        (repo, branch, files, Some err) \<Rightarrow> s
      | (repo, branch, files, None) \<Rightarrow>
          (let key = BuildMappingKey [repo, branch] in
           if length (lookup (mapping_var g) key) = 0 then s
           else foldl (\<lambda>s' job. createTimer (QuietPeriod g) job s') s
                  (lookup (mapping_var g) key)))"




text \<open>The first statement of \<^verbatim>\<open>createTimer\<close> as far as it touches the timers.\<close>

definition unregister :: "string \<Rightarrow> registry \<Rightarrow> registry" where
  "unregister job s = (case timeKeeper s job of None \<Rightarrow> s | Some t \<Rightarrow> Stop t s)"

section \<open>Properties of the key builder\<close>

lemma split_at_first_sep:
  assumes "c \<notin> set x" and "c \<notin> set y" and "x @ c # r = y @ c # r'"
  shows "x = y \<and> r = r'"
proof -
  have "takeWhile (\<lambda>a. a \<noteq> c) (x @ c # r) = x"
    using assms(1) by (subst takeWhile_append2) auto
  moreover have "takeWhile (\<lambda>a. a \<noteq> c) (y @ c # r') = y"
    using assms(2) by (subst takeWhile_append2) auto
  ultimately have "x = y" using assms(3) by simp
  with assms(3) show ?thesis by simp
qed

lemma Join_pipe_Cons:
  "Join (x # y # ys) ''|'' = x @ CHR ''|'' # Join (y # ys) ''|''"
  by simp

lemma Join_pipe_inject:
  assumes "length xs = length ys"
    and "\<forall>x \<in> set xs. pipe_free x" and "\<forall>y \<in> set ys. pipe_free y"
    and "Join xs ''|'' = Join ys ''|''"
  shows "xs = ys"
  using assms
proof (induction xs ys rule: list_induct2)
  case Nil
  show ?case by simp
next
  case (Cons x xs y ys)
  show ?case
  proof (cases xs)
    case Nil
    with Cons.hyps have "ys = []" by simp
    with Nil Cons.prems show ?thesis by simp
  next
    case (Cons x' xs')
    with Cons.hyps obtain y' ys' where ys: "ys = y' # ys'"
      by (cases ys) auto
    have eq: "x @ CHR ''|'' # Join xs ''|'' = y @ CHR ''|'' # Join ys ''|''"
      using Cons.prems(3) Cons ys by simp
    have "CHR ''|'' \<notin> set x" and "CHR ''|'' \<notin> set y"
      using Cons.prems(1,2) by (simp_all add: pipe_free_def)
    from split_at_first_sep [OF this eq]
    have "x = y" and "Join xs ''|'' = Join ys ''|''" by simp_all
    moreover have "xs = ys"
      using Cons.IH Cons.prems(1,2) \<open>Join xs ''|'' = Join ys ''|''\<close> by simp
    ultimately show ?thesis by simp
  qed
qed

text \<open>
  C8. The key builder joins its parts with the pipe character:
  the key of \<open>[a, b]\<close> is \<open>a|b\<close>, the key of \<open>[a, b, c]\<close> is \<open>a|b|c\<close>, and two lists
  of the same length whose elements contain no pipe and have equal keys are equal.
\<close>

theorem BuildMappingKey_joins_and_injective:
  "BuildMappingKey [''a'', ''b''] = ''a|b''
   \<and> BuildMappingKey [''a'', ''b'', ''c''] = ''a|b|c''
   \<and> (length xs = length ys
        \<and> (\<forall>x \<in> set xs. pipe_free x) \<and> (\<forall>y \<in> set ys. pipe_free y)
        \<and> BuildMappingKey xs = BuildMappingKey ys \<longrightarrow> xs = ys)"
  by (auto simp: BuildMappingKey_def intro: Join_pipe_inject)

theorem BuildMappingKey_joins_and_injective_witness:
  "length [''repoA'', ''main''] = length [''repoA'', ''main'']
   \<and> pipe_free ''repoA'' \<and> pipe_free ''main''
   \<and> BuildMappingKey [''repoA'', ''main''] = ''repoA|main''
   \<and> BuildMappingKey [''a'', ''b''] = ''a|b''
   \<and> BuildMappingKey [''a'', ''b'', ''c''] = ''a|b|c''"
  using BuildMappingKey_joins_and_injective [of "[''repoA'', ''main'']" "[''repoA'', ''main'']"]
  by (simp add: BuildMappingKey_def pipe_free_def)

section \<open>Properties of the mapping table\<close>

lemma index_in_range: "i < length xs \<Longrightarrow> index xs i = Inr (xs ! i)"
  by (simp add: index_def)

lemma index_out_of_range: "\<not> i < length xs \<Longrightarrow> index xs i = Inl (IndexOutOfRange i (length xs))"
  by (simp add: index_def)

lemma record_key_filematch_4:
  "length r = 4 \<Longrightarrow> record_key True r = Inr (Inr (BuildMappingKey [r ! 0, r ! 1, r ! 3]))"
  by (simp add: record_key_def index_def)

lemma record_key_filematch_bad:
  "length r \<noteq> 4 \<Longrightarrow>
   record_key True r = Inr (Inl (ErrorsNew ''no file matching information provided in mapping file''))"
  by (simp add: record_key_def)

lemma record_key_plain:
  "2 \<le> length r \<Longrightarrow> record_key False r = Inr (Inr (BuildMappingKey [r ! 0, r ! 1]))"
  by (auto simp: record_key_def index_def)

lemma record_key_plain_Inr:
  "record_key False r = Inr x \<Longrightarrow> 2 \<le> length r \<and> x = Inr (BuildMappingKey [r ! 0, r ! 1])"
  by (auto simp: record_key_def index_def split: if_splits)

lemma loop_filematch_bad:
  assumes "(r, e) \<in> set rows" and "length r \<noteq> 4"
  shows "\<exists>err. ParseMappingFile_loop True rows m lineCount = Inr (\<lparr>mapping = None\<rparr>, Some err)"
  using assms
proof (induction rows arbitrary: m lineCount)
  case Nil
  then show ?case by simp
next
  case (Cons a rows)
  obtain rcd eo where a: "a = (rcd, eo)" by (cases a)
  show ?case
  proof (cases eo)
    case (Some err)
    with a show ?thesis by simp
  next
    case None
    show ?thesis
    proof (cases "length rcd = 4")
      case False
      with a None show ?thesis by (simp add: record_key_filematch_bad)
    next
      case True
      with Cons.prems a have "(r, e) \<in> set rows" by auto
      from Cons.IH [OF this Cons.prems(2)] a None True show ?thesis
        by (simp add: record_key_filematch_4 index_in_range)
    qed
  qed
qed

lemma jobs_of_key_Nil: "jobs_of_key [] key = []"
  by (simp add: jobs_of_key_def)

lemma jobs_of_key_Cons:
  "jobs_of_key ((r, e) # rows) key =
     (if BuildMappingKey [r ! 0, r ! 1] = key then r ! 2 # jobs_of_key rows key
      else jobs_of_key rows key)"
  by (simp add: jobs_of_key_def)

lemma get_upd: "get (m(k \<mapsto> v)) key = (if key = k then v else get m key)"
  by (simp add: get_def)

lemma loop_plain_success:
  assumes "ParseMappingFile_loop False rows m lineCount = Inr (tm, None)"
  shows "\<exists>m'. mapping tm = Some m' \<and> (\<forall>key. get m' key = get m key @ jobs_of_key rows key)"
  using assms
proof (induction rows arbitrary: m lineCount)
  case Nil
  then show ?case by (auto simp: jobs_of_key_Nil)
next
  case (Cons a rows)
  obtain rcd eo where a: "a = (rcd, eo)" by (cases a)
  from Cons.prems a have eo: "eo = None" by (cases eo) auto
  from Cons.prems a eo obtain x where x: "record_key False rcd = Inr x"
    by (cases "record_key False rcd") auto
  then have len2: "2 \<le> length rcd" and xk: "x = Inr (BuildMappingKey [rcd ! 0, rcd ! 1])"
    using record_key_plain_Inr by blast+
  let ?key = "BuildMappingKey [rcd ! 0, rcd ! 1]"
  from Cons.prems a eo x xk have len3: "2 < length rcd"
    by (auto simp: index_def split: if_splits)
  from Cons.prems a eo x xk len3
  have "ParseMappingFile_loop False rows (m(?key \<mapsto> get m ?key @ [rcd ! 2])) (lineCount + 1)
          = Inr (tm, None)"
    by (simp add: index_in_range)
  from Cons.IH [OF this] obtain m' where
    m': "mapping tm = Some m'"
    "\<forall>key. get m' key = get (m(?key \<mapsto> get m ?key @ [rcd ! 2])) key @ jobs_of_key rows key"
    by blast
  show ?case using m' a by (auto simp: get_upd jobs_of_key_Cons)
qed

lemma loop_plain_success_lengths:
  assumes "ParseMappingFile_loop False rows m lineCount = Inr (tm, None)"
  shows "\<forall>(r, e) \<in> set rows. 3 \<le> length r \<and> e = None"
  using assms
proof (induction rows arbitrary: m lineCount)
  case Nil
  then show ?case by simp
next
  case (Cons a rows)
  obtain rcd eo where a: "a = (rcd, eo)" by (cases a)
  from Cons.prems a have eo: "eo = None" by (cases eo) auto
  from Cons.prems a eo obtain x where x: "record_key False rcd = Inr x"
    by (cases "record_key False rcd") auto
  then have xk: "x = Inr (BuildMappingKey [rcd ! 0, rcd ! 1])"
    using record_key_plain_Inr by blast
  from Cons.prems a eo x xk have len3: "2 < length rcd"
    by (auto simp: index_def split: if_splits)
  let ?key = "BuildMappingKey [rcd ! 0, rcd ! 1]"
  from Cons.prems a eo x xk len3
  have "ParseMappingFile_loop False rows (m(?key \<mapsto> get m ?key @ [rcd ! 2])) (lineCount + 1)
          = Inr (tm, None)"
    by (simp add: index_in_range)
  from Cons.IH [OF this] a eo len3 show ?case by auto
qed

lemma key_pair_inject:
  assumes "pipe_free a" and "pipe_free a'"
  shows "BuildMappingKey [a, b] = BuildMappingKey [a', b'] \<longleftrightarrow> a = a' \<and> b = b'"
  using assms split_at_first_sep [of "CHR ''|''" a a' b b']
  by (auto simp: BuildMappingKey_def pipe_free_def)

lemma jobs_of_key_pair:
  assumes "pipe_free repo" and "\<forall>(r, e) \<in> set rows. pipe_free (r ! 0)"
  shows "jobs_of_key rows (BuildMappingKey [repo, branch]) = jobs_of_pair rows repo branch"
proof -
  have "filter (\<lambda>r. BuildMappingKey [r ! 0, r ! 1] = BuildMappingKey [repo, branch]) (map fst rows)
        = filter (\<lambda>r. r ! 0 = repo \<and> r ! 1 = branch) (map fst rows)"
    using assms by (intro filter_cong) (auto simp: key_pair_inject)
  then show ?thesis by (simp add: jobs_of_key_def jobs_of_pair_def)
qed

text \<open>
  C10. In non-file-matching mode the job is read as \<^verbatim>\<open>record[2]\<close> with no check of the
  record's length: a source whose first record has exactly two fields makes the load
  panic with an index out of range, whatever follows; no error value is returned.
\<close>

theorem ParseMappingFile_two_fields_panics:
  "ParseMappingFile (([a, b], None) # rest) False = Inl (IndexOutOfRange 2 2)"
  by (simp add: ParseMappingFile_def record_key_def index_def)

text \<open>
  C7. In file-matching mode a source with a record whose field count is not 4 fails as
  a whole: the result is an error and the nil mapping, never a table built from the
  rows before it.
\<close>

theorem ParseMappingFile_filematch_rejects:
  assumes "(r, e) \<in> set rows" and "length r \<noteq> 4"
  shows "\<exists>err. ParseMappingFile rows True = Inr (\<lparr>mapping = None\<rparr>, Some err)"
  unfolding ParseMappingFile_def using assms by (rule loop_filematch_bad)

theorem ParseMappingFile_filematch_rejects_witness:
  "([''repoB'', ''main'', ''buildB''], None)
      \<in> set [([''repoA'', ''main'', ''buildA'', ''src''], None),
              ([''repoB'', ''main'', ''buildB''], None)]
   \<and> length [''repoB'', ''main'', ''buildB''] \<noteq> 4
   \<and> (\<exists>err. ParseMappingFile
          [([''repoA'', ''main'', ''buildA'', ''src''], None),
           ([''repoB'', ''main'', ''buildB''], None)] True
        = Inr (\<lparr>mapping = None\<rparr>, Some err))"
  using ParseMappingFile_filematch_rejects
    [of "[''repoB'', ''main'', ''buildB'']" None
        "[([''repoA'', ''main'', ''buildA'', ''src''], None),
          ([''repoB'', ''main'', ''buildB''], None)]"]
  by simp

text \<open>
  C6, as the code has it. After a successful load in non-file-matching mode, looking up
  the key of (repository, branch) returns the jobs (third fields) of the rows whose key
  \<open>repository|branch\<close> is that key, in source order with duplicates kept (the empty list
  when there is none); every row of such a source has at least three fields. These are the rows whose first two fields are the pair whenever
  neither the repository looked up nor the repository field of any row contains the
  separator.
\<close>

theorem load_then_lookup_plain:
  assumes "load_then_lookup rows False [repo, branch] = Some jobs"
  shows "(\<forall>(r, e) \<in> set rows. 3 \<le> length r \<and> e = None)
     \<and> jobs = jobs_of_key rows (BuildMappingKey [repo, branch])
     \<and> (pipe_free repo \<and> (\<forall>(r, e) \<in> set rows. pipe_free (r ! 0))
          \<longrightarrow> jobs = jobs_of_pair rows repo branch)"
proof -
  from assms obtain tm where tm: "ParseMappingFile rows False = Inr (tm, None)"
    and jobs: "jobs = lookup (mapping tm) (BuildMappingKey [repo, branch])"
    by (auto simp: load_then_lookup_def split: sum.splits option.splits)
  from tm have fields: "\<forall>(r, e) \<in> set rows. 3 \<le> length r \<and> e = None"
    unfolding ParseMappingFile_def by (rule loop_plain_success_lengths)
  from tm obtain m' where "mapping tm = Some m'"
    and "\<forall>key. get m' key = get Map.empty key @ jobs_of_key rows key"
    unfolding ParseMappingFile_def using loop_plain_success by blast
  with jobs have "jobs = jobs_of_key rows (BuildMappingKey [repo, branch])"
    by (simp add: lookup_def get_def)
  with fields show ?thesis by (simp add: jobs_of_key_pair)
qed

theorem load_then_lookup_plain_witness:
  "load_then_lookup
       [([''repoA'', ''main'', ''buildA''], None), ([''repoA'', ''dev'', ''buildDev''], None),
        ([''repoB'', ''main'', ''buildA''], None), ([''repoA'', ''main'', ''buildA''], None)]
       False [''repoA'', ''main''] = Some [''buildA'', ''buildA'']
   \<and> pipe_free ''repoA'' \<and> pipe_free ''repoB''
   \<and> jobs_of_pair
       [([''repoA'', ''main'', ''buildA''], None), ([''repoA'', ''dev'', ''buildDev''], None),
        ([''repoB'', ''main'', ''buildA''], None), ([''repoA'', ''main'', ''buildA''], None)]
       ''repoA'' ''main'' = [''buildA'', ''buildA'']"
  using load_then_lookup_plain
    [of "[([''repoA'', ''main'', ''buildA''], None), ([''repoA'', ''dev'', ''buildDev''], None),
          ([''repoB'', ''main'', ''buildA''], None), ([''repoA'', ''main'', ''buildA''], None)]"
        "''repoA''" "''main''" "[''buildA'', ''buildA'']"]
  by (simp add: load_then_lookup_def ParseMappingFile_def record_key_def index_def
      BuildMappingKey_def lookup_def get_def pipe_free_def jobs_of_pair_def)

text \<open>
  The claim as written fails where a field contains the separator: the rows
  \<open>a|b;c;job1\<close> and \<open>a;b|c;job2\<close> have the same key, so the lookup of (\<open>a\<close>, \<open>b|c\<close>)
  returns both jobs although only the second row has these two fields.
\<close>

theorem load_then_lookup_pair_counterexample:
  "load_then_lookup
       [([''a|b'', ''c'', ''job1''], None), ([''a'', ''b|c'', ''job2''], None)]
       False [''a'', ''b|c''] = Some [''job1'', ''job2'']
   \<and> jobs_of_pair
       [([''a|b'', ''c'', ''job1''], None), ([''a'', ''b|c'', ''job2''], None)]
       ''a'' ''b|c'' = [''job2'']"
  by (simp add: load_then_lookup_def ParseMappingFile_def record_key_def index_def
      BuildMappingKey_def lookup_def get_def jobs_of_pair_def)

section \<open>Properties of the trigger dispatcher\<close>

lemma triggerJob_request_url:
  "parses (createJobURL (JenkinsURL g) job) \<Longrightarrow>
   map URL (sent (triggerJob g parses Do job)) = [createJobURL (JenkinsURL g) job]"
  by (simp add: triggerJob_def NewRequest_def SetBasicAuth_def Let_def split: sum.splits)

lemma triggerJob_basic_auth:
  "parses (createJobURL (JenkinsURL g) job) \<Longrightarrow> JenkinsUser g \<noteq> [] \<Longrightarrow>
   sent (triggerJob g parses Do job) =
     [\<lparr>Method = ''POST'', URL = createJobURL (JenkinsURL g) job,
       BasicAuth = Some (JenkinsUser g, JenkinsToken g)\<rparr>]"
  by (simp add: triggerJob_def NewRequest_def SetBasicAuth_def Let_def split: sum.splits)

lemma triggerJob_no_user:
  "parses (createJobURL (JenkinsURL g) job) \<Longrightarrow> JenkinsUser g = [] \<Longrightarrow>
   sent (triggerJob g parses Do job) =
     [\<lparr>Method = ''POST'', URL = createJobURL (JenkinsURL g) job, BasicAuth = None\<rparr>]"
  by (simp add: triggerJob_def NewRequest_def Let_def split: sum.splits)

lemma triggerJob_transport_error:
  "Do = (\<lambda>req. Inl err) \<Longrightarrow> \<not> success (triggerJob g parses Do job)"
  by (simp add: triggerJob_def NewRequest_def Let_def split: sum.splits)

lemma triggerJob_any_response:
  "parses (createJobURL (JenkinsURL g) job) \<Longrightarrow> Do = (\<lambda>req. Inr resp) \<Longrightarrow>
   success (triggerJob g parses Do job)"
  by (simp add: triggerJob_def NewRequest_def Let_def split: sum.splits)

text \<open>
  C2, at the input where the code departs from it. With no user name configured, base
  URL \<open>http://jenkins\<close> and token \<open>secret\<close>, the request that \<^verbatim>\<open>triggerJob\<close> sends for job
  \<open>buildA\<close> is a POST to \<open>http://jenkins/job/buildA/build\<close> with no credentials at all:
  the token is appended to the local variable \<open>url\<close> only after the request was made
  from it, and the variable is not read again.
\<close>

theorem triggerJob_token_not_sent:
  "sent (triggerJob (initial_globals\<lparr>JenkinsURL := ''http://jenkins'', JenkinsToken := ''secret''\<rparr>)
           any_url (answers 201) ''buildA'')
     = [\<lparr>Method = ''POST'', URL = ''http://jenkins/job/buildA/build'', BasicAuth = None\<rparr>]
   \<and> url_var (triggerJob (initial_globals\<lparr>JenkinsURL := ''http://jenkins'', JenkinsToken := ''secret''\<rparr>)
           any_url (answers 201) ''buildA'')
     = ''http://jenkins/job/buildA/build?token=secret''"
  by (simp add: triggerJob_def NewRequest_def createJobURL_def initial_globals_def
      any_url_def answers_def)

text \<open>
  C3, at the input where the code departs from it. A response with status 500 is
  logged as failed, and \<^verbatim>\<open>triggerJob\<close> still returns true: its last statement is
  \<^verbatim>\<open>return true\<close> on both branches of the status check.
\<close>

theorem triggerJob_true_on_500:
  "success (triggerJob (initial_globals\<lparr>JenkinsURL := ''http://jenkins'', JenkinsToken := ''secret''\<rparr>)
           any_url (answers 500) ''buildA'') = True
   \<and> logged (triggerJob (initial_globals\<lparr>JenkinsURL := ''http://jenkins'', JenkinsToken := ''secret''\<rparr>)
           any_url (answers 500) ''buildA'') = [LogFailed ''buildA'' 500]"
  by (simp add: triggerJob_def NewRequest_def createJobURL_def initial_globals_def
      any_url_def answers_def)

section \<open>Properties of the startup\<close>

text \<open>
  C9. \<^verbatim>\<open>main\<close> never calls \<^verbatim>\<open>parseFlags\<close>, so \<^verbatim>\<open>run\<close> meets \<^verbatim>\<open>JenkinsURL\<close> empty:
  for every argument vector, environment and file system the process ends with
  status 1 on the error \<open>No JENKINS_URL defined\<close>, before the mapping is loaded and before
  anything is served.
\<close>

theorem main_always_fails_on_url:
  "main args env fs =
     \<lparr>exit_code = 1, fatal = Some (ErrorsNew ''No JENKINS_URL defined''), effects = []\<rparr>"
  by (simp add: main_def run_def initial_globals_def)

text \<open>
  C1, at the input where the code departs from it. The mapping file opens and its
  first row has three fields while file matching is on, so \<^verbatim>\<open>ParseMappingFile\<close> returns
  an error. \<^verbatim>\<open>ProcessMappingFile\<close> then returns \<open>err\<close>, the nil error of \<^verbatim>\<open>os.Open\<close>,
  instead of \<open>perr\<close>: no table is installed, but \<^verbatim>\<open>run\<close> sees no error and goes on to
  serve with the empty table.
\<close>

theorem ProcessMappingFile_drops_parse_error:
  "ParseMappingFile [([''repoA'', ''main'', ''buildA''], None)] True
     = Inr (\<lparr>mapping = None\<rparr>,
            Some (ErrorsNew ''no file matching information provided in mapping file''))
   \<and> ProcessMappingFile (initial_globals\<lparr>FileMatching := True\<rparr>)
        (every_path [([''repoA'', ''main'', ''buildA''], None)]) ''mapping.csv''
     = Inr (initial_globals\<lparr>FileMatching := True\<rparr>, None)
   \<and> run (initial_globals\<lparr>JenkinsURL := ''http://jenkins'', JenkinsToken := ''secret'',
              MappingFile := ''mapping.csv'', FileMatching := True\<rparr>) []
        (every_path [([''repoA'', ''main'', ''buildA''], None)])
     = ([LoadMapping ''mapping.csv'', HandleFunc ''/'', ListenAndServe '':8080''],
        Inr (initial_globals\<lparr>JenkinsURL := ''http://jenkins'', JenkinsToken := ''secret'',
              MappingFile := ''mapping.csv'', FileMatching := True\<rparr>, None))"
  by (simp add: run_def ProcessMappingFile_def ParseMappingFile_def record_key_def
      every_path_def initial_globals_def)

lemma ProcessMappingFile_parse_error_nil:
  "fs path = Inr rows \<Longrightarrow> ParseMappingFile rows (FileMatching g) = Inr (tm, Some perr) \<Longrightarrow>
   ProcessMappingFile g fs path = Inr (g, None)"
  by (simp add: ProcessMappingFile_def)

lemma ProcessMappingFile_open_error:
  "fs path = Inl operr \<Longrightarrow> ProcessMappingFile g fs path = Inr (g, Some operr)"
  by (simp add: ProcessMappingFile_def)

section \<open>Properties of the timer registry\<close>

lemmas timer_eval = run_events_def createTimer_def AfterFunc_def Stop_def advance_def
  callback_return_def init_registry_def quietDuration_def start_def maturing_def Let_def
  fires_def

lemma quietDuration_seconds:
  assumes "0 \<le> qp" and "qp \<le> 9223372036"
  shows "quietDuration qp = qp * 1000000000"
proof -
  have "(1000000000 :: 64 word) * word_of_int qp = word_of_int (1000000000 * qp)"
    by simp
  then have "quietDuration qp = sint (word_of_int (1000000000 * qp) :: 64 word)"
    by (simp add: quietDuration_def)
  also have "\<dots> = signed_take_bit 63 (1000000000 * qp)"
    using sint_sbintrunc' [where 'a = 64, of "1000000000 * qp"] by simp
  also have "\<dots> = 1000000000 * qp"
    using assms by (intro signed_take_bit_int_eq_self) simp_all
  finally show ?thesis by simp
qed


lemma length_timers_Stop: "length (timers (Stop t s)) = length (timers s)"
  by (simp add: Stop_def)

lemma timeKeeper_Stop: "timeKeeper (Stop t s) = timeKeeper s"
  by (simp add: Stop_def)

lemma clock_Stop: "clock (Stop t s) = clock s"
  by (simp add: Stop_def)


lemma timers_Stop_nth:
  "i < length (timers s) \<Longrightarrow> timers (Stop t s) ! i =
     (if i = t \<and> timer_status (timers s ! t) = Pending
      then (timers s ! t)\<lparr>timer_status := Stopped\<rparr> else timers s ! i)"
  by (simp add: Stop_def nth_list_update)

lemma length_timers_unregister: "length (timers (unregister job s)) = length (timers s)"
  by (simp add: unregister_def length_timers_Stop split: option.splits)

lemma clock_unregister: "clock (unregister job s) = clock s"
  by (simp add: unregister_def clock_Stop split: option.splits)

lemma timers_unregister_nth:
  "i < length (timers s) \<Longrightarrow> timers (unregister job s) ! i =
     (if timeKeeper s job = Some i \<and> timer_status (timers s ! i) = Pending
      then (timers s ! i)\<lparr>timer_status := Stopped\<rparr> else timers s ! i)"
  by (auto simp: unregister_def timers_Stop_nth split: option.splits)

lemma timers_createTimer:
  "timers (createTimer qp job s) =
     timers (unregister job s)
       @ [\<lparr>timer_job = job, timer_due = clock s + max 0 (quietDuration qp),
            timer_status = Pending\<rparr>]"
  by (simp add: createTimer_def AfterFunc_def Let_def unregister_def clock_Stop
      split: option.splits)

lemma timeKeeper_createTimer:
  "timeKeeper (createTimer qp job s) = (timeKeeper s)(job \<mapsto> length (timers s))"
  by (auto simp: createTimer_def AfterFunc_def Let_def length_timers_Stop timeKeeper_Stop
      split: option.splits)



lemma length_timers_createTimer:
  "length (timers (createTimer qp job s)) = Suc (length (timers s))"
  by (simp add: timers_createTimer length_timers_unregister)

lemma timers_createTimer_old:
  "i < length (timers s) \<Longrightarrow> timers (createTimer qp job s) ! i =
     (if timeKeeper s job = Some i \<and> timer_status (timers s ! i) = Pending
      then (timers s ! i)\<lparr>timer_status := Stopped\<rparr> else timers s ! i)"
  by (simp add: timers_createTimer nth_append length_timers_unregister timers_unregister_nth)

lemma timers_createTimer_new:
  "timers (createTimer qp job s) ! length (timers s) =
     \<lparr>timer_job = job, timer_due = clock s + max 0 (quietDuration qp), timer_status = Pending\<rparr>"
  by (simp add: timers_createTimer nth_append length_timers_unregister)



















lemma timers_callback_return_nth:
  "i < length (timers s) \<Longrightarrow> timers (callback_return t s) ! i =
     (if i = t \<and> timer_status (timers s ! t) = Running
      then (timers s ! t)\<lparr>timer_status := Done\<rparr> else timers s ! i)"
  by (simp add: callback_return_def Let_def nth_list_update split: option.splits)

lemma timeKeeper_callback_return:
  "timeKeeper (callback_return t s) =
     (if t < length (timers s) \<and> timer_status (timers s ! t) = Running
      then (timeKeeper s)(timer_job (timers s ! t) := None) else timeKeeper s)"
  by (auto simp: callback_return_def Let_def split: option.splits)








lemma run_events_append:
  "run_events qp (evs @ evs') s = run_events qp evs' (run_events qp evs s)"
  by (simp add: run_events_def)









text \<open>
  C4, as the code has it. When the function of a timer returns from \<^verbatim>\<open>triggerJob\<close>, it
  deletes the entry of its job from \<^verbatim>\<open>timeKeeper\<close> whenever there is one; it does not
  compare the stored timer with its own, and it touches no other job's entry. So when
  the job was armed again while the function was dispatching, the new timer is
  registered by that arm, the cleanup then removes this newer entry, and the new timer
  stays pending outside the registry.
\<close>

theorem callback_return_deletes_any_entry:
  assumes "t < length (timers s)" and "timer_status (timers s ! t) = Running"
  shows "timeKeeper (callback_return t s) = (timeKeeper s)(timer_job (timers s ! t) := None)
     \<and> timeKeeper (createTimer qp (timer_job (timers s ! t)) s) (timer_job (timers s ! t))
          = Some (length (timers s))
     \<and> timeKeeper (callback_return t (createTimer qp (timer_job (timers s ! t)) s))
          (timer_job (timers s ! t)) = None
     \<and> timer_status (timers (callback_return t (createTimer qp (timer_job (timers s ! t)) s))
          ! length (timers s)) = Pending"
proof -
  let ?J = "timer_job (timers s ! t)"
  let ?s' = "createTimer qp ?J s"
  have a: "timeKeeper (callback_return t s) = (timeKeeper s)(?J := None)"
    using assms by (simp add: timeKeeper_callback_return)
  have b: "timeKeeper ?s' ?J = Some (length (timers s))"
    by (simp add: timeKeeper_createTimer)
  have tt: "timers ?s' ! t = timers s ! t"
    using assms by (simp add: timers_createTimer_old)
  have running: "t < length (timers ?s') \<and> timer_status (timers ?s' ! t) = Running"
    using assms tt by (simp add: length_timers_createTimer)
  then have c: "timeKeeper (callback_return t ?s') ?J = None"
    using tt by (simp add: timeKeeper_callback_return)
  have "timers (callback_return t ?s') ! length (timers s) = timers ?s' ! length (timers s)"
    using assms(1) by (simp add: timers_callback_return_nth length_timers_createTimer)
  then have d: "timer_status (timers (callback_return t ?s') ! length (timers s)) = Pending"
    by (simp add: timers_createTimer_new)
  from a b c d show ?thesis by simp
qed

theorem callback_return_deletes_any_entry_witness:
  "0 < length (timers (run_events 10 [Arm ''buildA'', Advance 10000000000] (init_registry 0)))
   \<and> timer_status (timers (run_events 10 [Arm ''buildA'', Advance 10000000000]
        (init_registry 0)) ! 0) = Running
   \<and> timer_job (timers (run_events 10 [Arm ''buildA'', Advance 10000000000]
        (init_registry 0)) ! 0) = ''buildA''
   \<and> timeKeeper (createTimer 10 ''buildA''
        (run_events 10 [Arm ''buildA'', Advance 10000000000] (init_registry 0))) ''buildA''
       = Some 1
   \<and> timeKeeper (callback_return 0 (createTimer 10 ''buildA''
        (run_events 10 [Arm ''buildA'', Advance 10000000000] (init_registry 0)))) ''buildA''
       = None
   \<and> timer_status (timers (callback_return 0 (createTimer 10 ''buildA''
        (run_events 10 [Arm ''buildA'', Advance 10000000000] (init_registry 0)))) ! 1)
       = Pending"
  using callback_return_deletes_any_entry
    [of 0 "run_events 10 [Arm ''buildA'', Advance 10000000000] (init_registry 0)" 10]
  by (simp add: timer_eval)

text \<open>
  The claim as written fails on this run, with a quiet period of 10 seconds: the job is
  armed, its timer matures after 10 seconds and the function starts dispatching; the
  job is armed again, which registers timer 1; then the function of timer 0 returns and
  cleans up. The entry that the later arm installed is gone.
\<close>

theorem stale_cleanup_counterexample:
  "timeKeeper (run_events 10 [Arm ''buildA'', Advance 10000000000, Arm ''buildA'']
      (init_registry 0)) ''buildA'' = Some 1
   \<and> timeKeeper (run_events 10 [Arm ''buildA'', Advance 10000000000, Arm ''buildA'', Return 0]
      (init_registry 0)) ''buildA'' = None
   \<and> map timer_status (timers (run_events 10
        [Arm ''buildA'', Advance 10000000000, Arm ''buildA'', Return 0] (init_registry 0)))
      = [Done, Pending]"
  by (simp add: timer_eval)




end
